theory Spec2Isabelle
  imports Main "HOL-Library.Word" "HOL-Library.Multiset"
begin

section \<open>Text rendering used by the recorder\<close>

text \<open>
  The recorder renders numbers through three library calls: \<^verbatim>\<open>strconv.Itoa\<close> (base 10,
  sign first), the verb \<^verbatim>\<open>%d\<close> of \<^verbatim>\<open>fmt.Sprintf\<close> (the same text for an \<^verbatim>\<open>int\<close>),
  and the verb \<^verbatim>\<open>%016x\<close> (lowercase base 16, padded with zeros on the left up to a
  width of at least 16). The digits are produced most significant first.
\<close>

definition digit :: "nat \<Rightarrow> char" where
  "digit d = ''0123456789abcdef'' ! (d mod 16)"

fun digits10 :: "nat \<Rightarrow> string" where
  "digits10 n = (if n < 10 then [digit n] else digits10 (n div 10) @ [digit (n mod 10)])"

fun digits16 :: "nat \<Rightarrow> string" where
  "digits16 n = (if n < 16 then [digit n] else digits16 (n div 16) @ [digit (n mod 16)])"

declare digits10.simps [simp del]
declare digits16.simps [simp del]

definition Itoa :: "int \<Rightarrow> string" where
  "Itoa i = (if i < 0 then CHR ''-'' # digits10 (nat (- i)) else digits10 (nat i))"

definition pad0 :: "nat \<Rightarrow> string \<Rightarrow> string" where
  "pad0 width s = replicate (width - length s) CHR ''0'' @ s"

definition Sprintf_016x :: "64 word \<Rightarrow> string" where
  "Sprintf_016x w = pad0 16 (digits16 (unat w))"

definition is_lower_hex :: "char \<Rightarrow> bool" where
  "is_lower_hex c = (c \<in> set ''0123456789abcdef'')"

text \<open>
  Reading a numeral back: the value of a digit is its position among the digits, and a
  text is read most significant digit first in the given base.
\<close>

definition digit_value :: "char \<Rightarrow> nat" where
  "digit_value c = length (takeWhile (\<lambda>x. x \<noteq> c) ''0123456789abcdef'')"

definition number_of :: "nat \<Rightarrow> string \<Rightarrow> nat" where
  "number_of base s = foldl (\<lambda>a c. base * a + digit_value c) 0 s"

section \<open>Data model\<close>

text \<open>
  A tag value is a Go \<^verbatim>\<open>interface{}\<close>: a value together with its dynamic type. The type
  switch of \<^verbatim>\<open>convertTags\<close> has a case for the type \<^verbatim>\<open>int\<close> and one for the type
  \<^verbatim>\<open>string\<close>, and a case of a type switch matches that type only. So the other integer
  types are types of their own here: \<^verbatim>\<open>int64\<close>, and \<^verbatim>\<open>uint16\<close>, the type in which
  package \<^verbatim>\<open>ext\<close> stores \<^verbatim>\<open>http.status_code\<close>. \<^verbatim>\<open>convertSpanKind\<close> compares against
  values of the named type \<^verbatim>\<open>ext.SpanKindEnum\<close>, which is not \<^verbatim>\<open>string\<close> for a type
  switch either. The remaining dynamic types are kept as booleans and as an opaque value
  described by a text.
\<close>

datatype tag_value =
    TInt int
  | TString string
  | TSpanKindEnum string
  | TInt64 "64 word"
  | TUint16 "16 word"
  | TBool bool
  | TOther string

text \<open>
  \<^verbatim>\<open>opentracing.Tags\<close> is a \<^verbatim>\<open>map[string]interface{}\<close>. A \<^verbatim>\<open>range\<close> loop visits its
  entries in an order the language leaves open, so a tag mapping is given as the list of
  its entries in the order the loop visits them; the keys of a Go map are pairwise
  distinct. A label set is a \<^verbatim>\<open>map[string]string\<close> that is only indexed, assigned and
  deleted from.
\<close>

type_synonym Tags = "(string \<times> tag_value) list"

type_synonym Labels = "string \<rightharpoonup> string"

text \<open>Keys of package \<^verbatim>\<open>opentracing-go/ext\<close> that the recorder refers to.\<close>

definition PeerHostname :: string where "PeerHostname = ''peer.hostname''"
definition HTTPMethod :: string where "HTTPMethod = ''http.method''"
definition HTTPStatusCode :: string where "HTTPStatusCode = ''http.status_code''"
definition HTTPUrl :: string where "HTTPUrl = ''http.url''"
definition SpanKind :: string where "SpanKind = ''span.kind''"
definition SpanKindRPCServerEnum :: tag_value where
  "SpanKindRPCServerEnum = TSpanKindEnum ''server''"
definition SpanKindRPCClientEnum :: tag_value where
  "SpanKindRPCClientEnum = TSpanKindEnum ''client''"

definition labelMap :: "(string \<times> string) list" where
  "labelMap =
    [(PeerHostname, ''trace.cloud.google.com/http/host''),
     (HTTPMethod, ''trace.cloud.google.com/http/method''),
     (HTTPStatusCode, ''trace.cloud.google.com/http/status_code''),
     (HTTPUrl, ''trace.cloud.google.com/http/url'')]"

section \<open>Tag conversion and label rewriting\<close>

fun convertTags_step :: "string \<times> tag_value \<Rightarrow> Labels \<Rightarrow> Labels" where
  "convertTags_step (k, TInt v) labels = labels(k \<mapsto> Itoa v)"
| "convertTags_step (k, TString v) labels = labels(k \<mapsto> v)"
| "convertTags_step (k, _) labels = labels"

definition convertTags :: "Tags \<Rightarrow> Labels" where
  "convertTags tags = fold convertTags_step tags Map.empty"

definition convertSpanKind :: "Tags \<Rightarrow> string" where
  "convertSpanKind tags =
    (let v = map_of tags SpanKind in
     if v = Some SpanKindRPCServerEnum then ''RPC_SERVER''
     else if v = Some SpanKindRPCClientEnum then ''RPC_CLIENT''
     else ''SPAN_KIND_UNSPECIFIED'')"

text \<open>
  One round of the loop of \<^verbatim>\<open>transposeLabels\<close>, for the table entry \<open>(k, t)\<close>, and the
  loop over the entries in a given visiting order. \<open>transposeLabels\<close> visits them in the
  order the table is written in.
\<close>

fun transposeLabels_step :: "string \<times> string \<Rightarrow> Labels \<Rightarrow> Labels" where
  "transposeLabels_step (k, t) labels =
    (case labels k of
       Some vv \<Rightarrow> (labels(t \<mapsto> vv))(k := None)
     | None \<Rightarrow> labels)"

definition transposeLabels_in :: "(string \<times> string) list \<Rightarrow> Labels \<Rightarrow> Labels" where
  "transposeLabels_in entries labels = fold transposeLabels_step entries labels"

definition transposeLabels :: "Labels \<Rightarrow> Labels" where
  "transposeLabels labels = transposeLabels_in labelMap labels"

section \<open>Log flattening\<close>

text \<open>
  A log record carries a timestamp and its fields; a field has a key and a value of any
  type, rendered by \<^verbatim>\<open>fmt.Sprint\<close>. The timestamp type, its \<^verbatim>\<open>String\<close> method and
  \<^verbatim>\<open>fmt.Sprint\<close> on field values belong to libraries, so they are parameters.
\<close>

record ('t, 'v) LogRecord =
  Timestamp :: 't
  Fields :: "(string \<times> 'v) list"

text \<open>
  The inner loop of \<^verbatim>\<open>addLogs\<close>: \<open>n\<close> is \<^verbatim>\<open>len(l.Fields)\<close>, \<open>j\<close> the index of the field
  at the head of the remaining list, \<open>buf\<close> the buffer so far.
\<close>

fun writeFields :: "('v \<Rightarrow> string) \<Rightarrow> nat \<Rightarrow> nat \<Rightarrow> (string \<times> 'v) list \<Rightarrow> string \<Rightarrow> string" where
  "writeFields Sprint n j [] buf = buf"
| "writeFields Sprint n j (f # fs) buf =
    (let buf1 = buf @ fst f @ ''='' @ Sprint (snd f);
         buf2 = (if j \<noteq> n + 1 then buf1 @ '' '' else buf1)
     in writeFields Sprint n (Suc j) fs buf2)"

definition eventValue :: "('t \<Rightarrow> string) \<Rightarrow> ('v \<Rightarrow> string) \<Rightarrow> ('t, 'v) LogRecord \<Rightarrow> string" where
  "eventValue String Sprint l =
    writeFields Sprint (length (Fields l)) 0 (Fields l) (String (Timestamp l))"

definition eventKey :: "nat \<Rightarrow> string" where
  "eventKey i = ''event_'' @ Itoa (int i)"

fun addLogs_from :: "('t \<Rightarrow> string) \<Rightarrow> ('v \<Rightarrow> string) \<Rightarrow> nat \<Rightarrow> Labels \<Rightarrow>
    ('t, 'v) LogRecord list \<Rightarrow> Labels" where
  "addLogs_from String Sprint i target [] = target"
| "addLogs_from String Sprint i target (l # ls) =
    addLogs_from String Sprint (Suc i) (target(eventKey i \<mapsto> eventValue String Sprint l)) ls"

definition addLogs :: "('t \<Rightarrow> string) \<Rightarrow> ('v \<Rightarrow> string) \<Rightarrow> Labels \<Rightarrow>
    ('t, 'v) LogRecord list \<Rightarrow> Labels" where
  "addLogs String Sprint target logs = addLogs_from String Sprint 0 target logs"

section \<open>Errors, options and construction\<close>

text \<open>
  \<open>ErrInvalidProjectID\<close> is the error of this package, \<open>ErrOverflow\<close> the one of the
  bundler package that \<^verbatim>\<open>RecordSpan\<close> compares against; every other error value of a
  collaborator is kept with its message.
\<close>

datatype error =
    ErrInvalidProjectID
  | ErrOverflow
  | OtherError string

datatype Logger = defaultLogger | userLogger string

record JWTCredentials =
  Email :: string
  PrivateKey :: "8 word list"
  PrivateKeyID :: string

record Options =
  o_log :: "Logger option"
  o_projectID :: string
  o_credentials :: JWTCredentials

type_synonym Option = "Options \<Rightarrow> Options"

text \<open>The zero value that \<^verbatim>\<open>var options Options\<close> declares.\<close>

definition zeroOptions :: Options where
  "zeroOptions =
    \<lparr>o_log = None, o_projectID = [],
     o_credentials = \<lparr>Email = [], PrivateKey = [], PrivateKeyID = []\<rparr>\<rparr>"

definition Valid :: "Options \<Rightarrow> error option" where
  "Valid options = (if o_projectID options = [] then Some ErrInvalidProjectID else None)"

definition WithProject :: "string \<Rightarrow> Option" where
  "WithProject pid = (\<lambda>options. options\<lparr>o_projectID := pid\<rparr>)"

definition WithLogger :: "Logger \<Rightarrow> Option" where
  "WithLogger logger = (\<lambda>options. options\<lparr>o_log := Some logger\<rparr>)"

definition WithJWTCredentials :: "JWTCredentials \<Rightarrow> Option" where
  "WithJWTCredentials credentials = (\<lambda>options. options\<lparr>o_credentials := credentials\<rparr>)"

record jwt_Config =
  c_Email :: string
  c_PrivateKey :: "8 word list"
  c_PrivateKeyID :: string
  c_Scopes :: "string list"
  c_TokenURL :: string

text \<open>
  The batching thresholds of the bundler, as \<^verbatim>\<open>NewRecorder\<close> sets them after
  \<^verbatim>\<open>bundler.NewBundler\<close>; the delay is in nanoseconds.
\<close>

record Bundler =
  DelayThreshold :: int
  BundleCountThreshold :: int
  BundleByteThreshold :: int
  BundleByteLimit :: int
  BufferedByteLimit :: int

text \<open>
  The recorder. Its \<^verbatim>\<open>ctx\<close> field is stored and never read, and is left out. The trace
  client is known by the configuration it was created from.
\<close>

record Recorder =
  project :: string
  log :: Logger
  traceClient :: jwt_Config
  bundler :: Bundler

text \<open>
  \<^verbatim>\<open>NewRecorder\<close> applies the options in order to the zero value, validates, chooses the
  logger, builds the configuration of the authenticated client and creates the trace
  client. \<^verbatim>\<open>cloudtrace.New\<close> on that client and the constant \<^verbatim>\<open>google.JWTTokenURL\<close>
  belong to libraries and are parameters.
\<close>

definition applyOptions :: "Option list \<Rightarrow> Options" where
  "applyOptions opts = fold (\<lambda>opt options. opt options) opts zeroOptions"

definition NewRecorder :: "(jwt_Config \<Rightarrow> error option) \<Rightarrow> string \<Rightarrow> Option list \<Rightarrow> error + Recorder" where
  "NewRecorder cloudtrace_New JWTTokenURL opts =
    (let options = applyOptions opts in
     case Valid options of
       Some err \<Rightarrow> Inl err
     | None \<Rightarrow>
        (let logger = (case o_log options of None \<Rightarrow> defaultLogger | Some l \<Rightarrow> l);
             conf = \<lparr>c_Email = Email (o_credentials options),
                     c_PrivateKey = PrivateKey (o_credentials options),
                     c_PrivateKeyID = PrivateKeyID (o_credentials options),
                     c_Scopes = [''https://www.googleapis.com/auth/trace.append'',
                                 ''https://www.googleapis.com/auth/trace.readonly'',
                                 ''https://www.googleapis.com/auth/cloud-platform''],
                     c_TokenURL = JWTTokenURL\<rparr>
         in case cloudtrace_New conf of
              Some err \<Rightarrow> Inl err
            | None \<Rightarrow>
               Inr \<lparr>project = o_projectID options,
                    log = logger,
                    traceClient = conf,
                    bundler = \<lparr>DelayThreshold = 2 * 1000000000,
                                BundleCountThreshold = 100,
                                BundleByteThreshold = 1000,
                                BundleByteLimit = 1000,
                                BufferedByteLimit = 10000\<rparr>\<rparr>))"

section \<open>Recording a span\<close>

record SpanContext =
  TraceID :: "64 word"
  SpanID :: "64 word"
  Sampled :: bool

record ('t, 'v) RawSpan =
  Context :: SpanContext
  ParentSpanID :: "64 word"
  Operation :: string
  Start :: 't
  Duration :: int
  Tags :: Tags
  Logs :: "('t, 'v) LogRecord list"

record TraceSpan =
  SpanId :: "64 word"
  Kind :: string
  Name :: string
  StartTime :: string
  EndTime :: string
  ParentSpanId :: "64 word"
  Labels :: Labels

record Trace =
  ProjectId :: string
  TraceId :: string
  Spans :: "TraceSpan list"

text \<open>
  The library calls \<^verbatim>\<open>RecordSpan\<close> makes and this package does not define: on times,
  \<^verbatim>\<open>String\<close>, \<^verbatim>\<open>Format(time.RFC3339Nano)\<close> and \<^verbatim>\<open>Add\<close>; \<^verbatim>\<open>fmt.Sprint\<close> on a log field
  value; \<^verbatim>\<open>Add\<close> of the bundler, from its thresholds, its buffered state, the item and
  the item's size to an error or none and the next buffered state; and the answer of the
  collector to \<^verbatim>\<open>PatchTraces(project, traces).Do()\<close>.
\<close>

record ('t, 'v, 'b) env =
  time_String :: "'t \<Rightarrow> string"
  time_Format :: "'t \<Rightarrow> string"
  time_Add :: "'t \<Rightarrow> int \<Rightarrow> 't"
  fmt_Sprint :: "'v \<Rightarrow> string"
  bundler_Add :: "Bundler \<Rightarrow> 'b \<Rightarrow> Trace \<Rightarrow> int \<Rightarrow> error option \<times> 'b"
  PatchTraces_Do :: "string \<Rightarrow> Trace list \<Rightarrow> error option"

text \<open>
  What a call leaves behind outside the recorder: the calls the logger received (its
  format and its arguments), the batches handed to the collector with their project, the
  items handed to \<^verbatim>\<open>Add\<close> of the bundler with their size, and the buffered state of the
  bundler.
\<close>

datatype arg = ArgError error | ArgInt int

record 'b world =
  errorf_calls :: "(Logger \<times> string \<times> arg list) list"
  patch_calls :: "(string \<times> Trace list) list"
  add_calls :: "(Trace \<times> int) list"
  buffered :: 'b

definition Errorf :: "Logger \<Rightarrow> string \<Rightarrow> arg list \<Rightarrow> 'b world \<Rightarrow> 'b world" where
  "Errorf l msg args w = w\<lparr>errorf_calls := errorf_calls w @ [(l, msg, args)]\<rparr>"

definition upload :: "('t, 'v, 'b) env \<Rightarrow> Recorder \<Rightarrow> Trace list \<Rightarrow> 'b world \<Rightarrow> error option \<times> 'b world" where
  "upload e r traces w =
    (PatchTraces_Do e (project r) traces,
     w\<lparr>patch_calls := patch_calls w @ [(project r, traces)]\<rparr>)"

text \<open>The handler \<^verbatim>\<open>NewRecorder\<close> gives to the bundler, run on each bundle.\<close>

definition bundleHandler :: "('t, 'v, 'b) env \<Rightarrow> Recorder \<Rightarrow> Trace list \<Rightarrow> 'b world \<Rightarrow> 'b world" where
  "bundleHandler e r traces w =
    (case upload e r traces w of
       (Some err, w1) \<Rightarrow>
         Errorf (log r) ''failed to upload %d traces to the Cloud Trace server. (err = %s)''
           [ArgInt (int (length traces)), ArgError err] w1
     | (None, w1) \<Rightarrow> w1)"

text \<open>
  The label set of a span (the three calls on \<^verbatim>\<open>labels\<close> in \<^verbatim>\<open>RecordSpan\<close>) and the
  trace record built for a sampled span.
\<close>

definition spanLabels :: "('t, 'v, 'b) env \<Rightarrow> ('t, 'v) RawSpan \<Rightarrow> Labels" where
  "spanLabels e sp =
    (let labels = convertTags (Tags sp);
         labels = transposeLabels labels
     in addLogs (time_String e) (fmt_Sprint e) labels (Logs sp))"

definition buildTrace :: "('t, 'v, 'b) env \<Rightarrow> Recorder \<Rightarrow> ('t, 'v) RawSpan \<Rightarrow> Trace" where
  "buildTrace e r sp =
    (let traceID = Sprintf_016x (TraceID (Context sp)) @ Sprintf_016x (TraceID (Context sp));
         labels = spanLabels e sp
     in \<lparr>ProjectId = project r,
         TraceId = traceID,
         Spans = [\<lparr>SpanId = SpanID (Context sp),
                   Kind = convertSpanKind (Tags sp),
                   Name = Operation sp,
                   StartTime = time_Format e (Start sp),
                   EndTime = time_Format e (time_Add e (Start sp) (Duration sp)),
                   ParentSpanId = ParentSpanID sp,
                   Labels = labels\<rparr>]\<rparr>)"

definition RecordSpan :: "('t, 'v, 'b) env \<Rightarrow> Recorder \<Rightarrow> ('t, 'v) RawSpan \<Rightarrow> 'b world \<Rightarrow> 'b world" where
  "RecordSpan e r sp w =
    (if \<not> Sampled (Context sp) then w
     else
       let trace = buildTrace e r sp in
       case bundler_Add e (bundler r) (buffered w) trace 2 of
         (err, b) \<Rightarrow>
           (let w1 = w\<lparr>add_calls := add_calls w @ [(trace, 2)], buffered := b\<rparr> in
            if err = Some ErrOverflow then
              (let w2 = Errorf (log r) ''trace upload bundle too full. uploading immediately'' [] w1 in
               case upload e r [trace] w2 of
                 (Some err2, w3) \<Rightarrow> Errorf (log r) ''error uploading trace: %s'' [ArgError err2] w3
               | (None, w3) \<Rightarrow> w3)
            else w1))"

section \<open>The log value as the specification words it\<close>

text \<open>
  The specification describes the value of an event label as the timestamp followed by
  the fields, each rendered as \<open>key=value\<close>, joined by single spaces. This is that
  description, kept apart from \<open>eventValue\<close>, which follows the code.
\<close>

fun join :: "string \<Rightarrow> string list \<Rightarrow> string" where
  "join sep [] = []"
| "join sep [x] = x"
| "join sep (x # y # ys) = x @ sep @ join sep (y # ys)"

definition eventValue_spec :: "('t \<Rightarrow> string) \<Rightarrow> ('v \<Rightarrow> string) \<Rightarrow> ('t, 'v) LogRecord \<Rightarrow> string" where
  "eventValue_spec String Sprint l =
    String (Timestamp l) @ join '' '' (map (\<lambda>f. fst f @ ''='' @ Sprint (snd f)) (Fields l))"

section \<open>Example inputs\<close>

text \<open>
  Collaborators for the examples. Times and field values are texts rendered as they
  are. \<open>limit_Add\<close> is a bundler that keeps the buffered size and refuses an item that
  would take it over \<open>BufferedByteLimit\<close>, as the specification describes the overflow
  condition; \<open>oversize_Add\<close> refuses every item with another error. \<open>sink_down\<close> is a
  collector that fails every call, \<open>sink_up\<close> one that accepts every call, and
  \<open>client_ok\<close> a client constructor that succeeds.
\<close>

definition limit_Add :: "Bundler \<Rightarrow> int \<Rightarrow> Trace \<Rightarrow> int \<Rightarrow> error option \<times> int" where
  "limit_Add cfg held item weight =
    (if held + weight > BufferedByteLimit cfg then (Some ErrOverflow, held)
     else (None, held + weight))"

definition oversize_Add :: "Bundler \<Rightarrow> int \<Rightarrow> Trace \<Rightarrow> int \<Rightarrow> error option \<times> int" where
  "oversize_Add cfg held item weight = (Some (OtherError ''item size exceeds bundle byte limit''), held)"

definition sink_down :: "string \<Rightarrow> Trace list \<Rightarrow> error option" where
  "sink_down p traces = Some (OtherError ''unavailable'')"

definition sink_up :: "string \<Rightarrow> Trace list \<Rightarrow> error option" where
  "sink_up p traces = None"

definition client_ok :: "jwt_Config \<Rightarrow> error option" where
  "client_ok conf = None"

definition example_env :: "(Bundler \<Rightarrow> int \<Rightarrow> Trace \<Rightarrow> int \<Rightarrow> error option \<times> int) \<Rightarrow>
    (string \<Rightarrow> Trace list \<Rightarrow> error option) \<Rightarrow> (string, string, int) env" where
  "example_env add sink =
    \<lparr>time_String = (\<lambda>t. t), time_Format = (\<lambda>t. t), time_Add = (\<lambda>t d. t),
     fmt_Sprint = (\<lambda>v. v), bundler_Add = add, PatchTraces_Do = sink\<rparr>"

definition example_recorder :: Recorder where
  "example_recorder =
    \<lparr>project = ''p'', log = defaultLogger,
     traceClient = \<lparr>c_Email = [], c_PrivateKey = [], c_PrivateKeyID = [], c_Scopes = [],
                     c_TokenURL = []\<rparr>,
     bundler = \<lparr>DelayThreshold = 2000000000, BundleCountThreshold = 100,
                 BundleByteThreshold = 1000, BundleByteLimit = 1000,
                 BufferedByteLimit = 10000\<rparr>\<rparr>"

definition example_tags :: Tags where
  "example_tags =
    [(''peer.hostname'', TString ''a''), (''custom'', TString ''b''),
     (''event_0'', TString ''from a tag''), (''n'', TInt 42), (''flag'', TBool True)]"

definition example_log :: "(string, string) LogRecord" where
  "example_log = \<lparr>Timestamp = ''T'', Fields = [(''a'', ''1''), (''b'', ''2'')]\<rparr>"

definition example_span :: "bool \<Rightarrow> (string, string) RawSpan" where
  "example_span sampled =
    \<lparr>Context = \<lparr>TraceID = 0x1f, SpanID = 7, Sampled = sampled\<rparr>,
     ParentSpanID = 0, Operation = ''op'', Start = ''start'', Duration = 5,
     Tags = example_tags, Logs = [example_log]\<rparr>"

definition example_world :: "int \<Rightarrow> int world" where
  "example_world held = \<lparr>errorf_calls = [], patch_calls = [], add_calls = [], buffered = held\<rparr>"

section \<open>Facts about the rendering of numbers\<close>

lemma lt16_cases:
  "d < 16 \<Longrightarrow> d \<in> {0, 1, 2, 3, 4, 5, 6, 7, 8, 9, 10, 11, 12, 13, 14, 15::nat}"
  by (simp; arith)

lemma digit_value_digit: "d < 16 \<Longrightarrow> digit_value (digit d) = d"
  using lt16_cases [of d] by (auto simp: digit_value_def digit_def)

lemma is_lower_hex_digit: "is_lower_hex (digit d)"
proof -
  have "d mod 16 < 16" by simp
  from lt16_cases [OF this] show ?thesis
    unfolding digit_def is_lower_hex_def by (elim insertE emptyE) simp_all
qed

lemma number_of_snoc: "number_of b (s @ [c]) = b * number_of b s + digit_value c"
  by (simp add: number_of_def)

lemma number_of_digits10: "number_of 10 (digits10 n) = n"
proof (induction n rule: digits10.induct)
  case (1 n)
  show ?case
  proof (cases "n < 10")
    case True
    then show ?thesis
      by (subst digits10.simps) (simp add: number_of_def digit_value_digit)
  next
    case False
    have "n mod 10 < 16" by (rule less_trans [OF mod_less_divisor]) simp_all
    with False 1 show ?thesis
      by (subst digits10.simps) (simp add: number_of_snoc digit_value_digit)
  qed
qed

lemma number_of_digits16: "number_of 16 (digits16 n) = n"
proof (induction n rule: digits16.induct)
  case (1 n)
  show ?case
  proof (cases "n < 16")
    case True
    then show ?thesis
      by (subst digits16.simps) (simp add: number_of_def digit_value_digit)
  next
    case False
    with 1 show ?thesis
      by (subst digits16.simps) (simp add: number_of_snoc digit_value_digit)
  qed
qed

lemma digits10_inj: "digits10 m = digits10 n \<Longrightarrow> m = n"
  by (metis number_of_digits10)

lemma eventKey_inj: "eventKey i = eventKey j \<Longrightarrow> i = j"
  by (auto simp: eventKey_def Itoa_def dest: digits10_inj)

lemma length_digits16: "0 < k \<Longrightarrow> n < 16 ^ k \<Longrightarrow> length (digits16 n) \<le> k"
proof (induction n arbitrary: k rule: digits16.induct)
  case (1 n)
  show ?case
  proof (cases "n < 16")
    case True
    with 1(2) show ?thesis by (subst digits16.simps) simp
  next
    case False
    then obtain k' where k: "k = Suc k'" using 1(2) by (cases k) auto
    with False 1(3) have "0 < k'" by (cases k') auto
    moreover from 1(3) k have "n div 16 < 16 ^ k'"
      by (simp add: less_mult_imp_div_less mult.commute)
    ultimately have "length (digits16 (n div 16)) \<le> k'" using 1(1) [OF False] by blast
    with False k show ?thesis by (subst digits16.simps) simp
  qed
qed

lemma digits16_hex: "list_all is_lower_hex (digits16 n)"
proof (induction n rule: digits16.induct)
  case (1 n)
  then show ?case by (subst digits16.simps) (simp add: is_lower_hex_digit)
qed

lemma length_Sprintf_016x: "length (Sprintf_016x w) = 16"
proof -
  have "unat w < 2 ^ 64" using unsigned_less [of w, where ?'a = nat] by simp
  then have "unat w < (16::nat) ^ 16" by simp
  then have "length (digits16 (unat w)) \<le> 16" by (intro length_digits16) simp_all
  then show ?thesis by (simp add: Sprintf_016x_def pad0_def)
qed

lemma is_lower_hex_zero: "is_lower_hex CHR ''0''"
  by (simp add: is_lower_hex_def)

lemma list_all_replicate: "P x \<Longrightarrow> list_all P (replicate k x)"
  by (induction k) simp_all

lemma Sprintf_016x_hex: "list_all is_lower_hex (Sprintf_016x w)"
  by (simp add: Sprintf_016x_def pad0_def digits16_hex list_all_replicate is_lower_hex_zero)

lemma number_of_zeros: "number_of b (replicate k CHR ''0'' @ s) = number_of b s"
  by (induction k) (simp_all add: number_of_def digit_value_def)

lemma number_of_Sprintf_016x: "number_of 16 (Sprintf_016x w) = unat w"
  by (simp add: Sprintf_016x_def pad0_def number_of_zeros number_of_digits16)

section \<open>Facts about tag conversion and the rewrite table\<close>

lemma fold_convertTags_step:
  "distinct (map fst tags) \<Longrightarrow>
   fold convertTags_step tags m k =
     (case map_of tags k of
        Some (TInt i) \<Rightarrow> Some (Itoa i)
      | Some (TString s) \<Rightarrow> Some s
      | _ \<Rightarrow> m k)"
proof (induction tags arbitrary: m)
  case Nil
  then show ?case by simp
next
  case (Cons kv tags)
  obtain k' v where kv: "kv = (k', v)" by (cases kv)
  from Cons.prems kv have d: "distinct (map fst tags)" and nin: "k' \<notin> fst ` set tags" by simp_all
  from nin have none: "map_of tags k' = None" by (simp add: map_of_eq_None_iff)
  have IH: "fold convertTags_step tags (convertTags_step kv m) k =
     (case map_of tags k of
        Some (TInt i) \<Rightarrow> Some (Itoa i)
      | Some (TString s) \<Rightarrow> Some s
      | _ \<Rightarrow> convertTags_step kv m k)" by (rule Cons.IH [OF d])
  show ?case
  proof (cases "k = k'")
    case True
    with kv none IH show ?thesis by (cases v) simp_all
  next
    case False
    with kv IH show ?thesis by (cases v) (simp_all split: option.split tag_value.split)
  qed
qed

lemma distinct_labelMap_keys: "distinct (map fst labelMap @ map snd labelMap)"
  by (simp add: labelMap_def PeerHostname_def HTTPMethod_def HTTPStatusCode_def HTTPUrl_def)

lemma pairs_disjoint:
  assumes "distinct (map fst l @ map snd l)" "x \<in> set l" "y \<in> set l"
  shows "fst x \<noteq> snd y" and "x \<noteq> y \<Longrightarrow> fst x \<noteq> fst y \<and> snd x \<noteq> snd y"
proof -
  from assms(1) have d: "inj_on fst (set l)" "inj_on snd (set l)" "fst ` set l \<inter> snd ` set l = {}"
    by (simp_all add: distinct_map)
  from d(3) assms(2,3) show "fst x \<noteq> snd y" by (metis disjoint_iff imageI)
  from d(1,2) assms(2,3) show "x \<noteq> y \<Longrightarrow> fst x \<noteq> fst y \<and> snd x \<noteq> snd y"
    by (auto dest: inj_onD)
qed

lemma labelMap_disjoint:
  assumes "x \<in> set labelMap" "y \<in> set labelMap"
  shows "fst x \<noteq> snd y" and "x \<noteq> y \<Longrightarrow> fst x \<noteq> fst y \<and> snd x \<noteq> snd y"
  using pairs_disjoint [OF distinct_labelMap_keys assms] by blast+

lemma distinct_labelMap: "distinct labelMap"
  using distinct_labelMap_keys by (simp add: distinct_map)

lemma transposeLabels_step_other:
  "k \<noteq> x \<Longrightarrow> t \<noteq> x \<Longrightarrow> transposeLabels_step (k, t) m x = m x"
  by (cases "m k") simp_all

lemma transposeLabels_step_commute:
  assumes "k1 \<noteq> k2" "k1 \<noteq> t2" "t1 \<noteq> k2" "t1 \<noteq> t2"
  shows "transposeLabels_step (k1, t1) (transposeLabels_step (k2, t2) m) =
         transposeLabels_step (k2, t2) (transposeLabels_step (k1, t1) m)"
proof (cases "m k1")
  case None
  then show ?thesis using assms by (cases "m k2") simp_all
next
  case (Some v1)
  then show ?thesis using assms by (cases "m k2") (simp_all add: fun_eq_iff)
qed

lemma fold_transposeLabels_step_other:
  "(\<And>e. e \<in> set es \<Longrightarrow> fst e \<noteq> x \<and> snd e \<noteq> x) \<Longrightarrow> fold transposeLabels_step es m x = m x"
proof (induction es arbitrary: m)
  case Nil
  then show ?case by simp
next
  case (Cons e es)
  obtain k t where e: "e = (k, t)" by (cases e)
  from Cons.prems [of e] e have "k \<noteq> x" "t \<noteq> x" by simp_all
  then have "transposeLabels_step e m x = m x" unfolding e by (rule transposeLabels_step_other)
  moreover have "fold transposeLabels_step es (transposeLabels_step e m) x = transposeLabels_step e m x"
    by (rule Cons.IH) (simp add: Cons.prems)
  ultimately show ?case by simp
qed

lemma transposeLabels_in_perm:
  assumes "mset es = mset labelMap"
  shows "transposeLabels_in es = transposeLabels_in labelMap"
proof -
  have "fold transposeLabels_step labelMap = fold transposeLabels_step es"
  proof (rule fold_multiset_equiv)
    fix x y assume xy: "x \<in> set labelMap" "y \<in> set labelMap"
    show "transposeLabels_step x \<circ> transposeLabels_step y = transposeLabels_step y \<circ> transposeLabels_step x"
    proof (cases "x = y")
      case True
      then show ?thesis by simp
    next
      case False
      obtain k1 t1 k2 t2 where e: "x = (k1, t1)" "y = (k2, t2)" by (cases x, cases y)
      from labelMap_disjoint(2) [OF xy False] labelMap_disjoint(1) [OF xy] labelMap_disjoint(1) [OF xy(2,1)] e
      have ne: "k1 \<noteq> k2" "k1 \<noteq> t2" "t1 \<noteq> k2" "t1 \<noteq> t2" by auto
      have c: "transposeLabels_step (k1, t1) (transposeLabels_step (k2, t2) m) =
          transposeLabels_step (k2, t2) (transposeLabels_step (k1, t1) m)" for m
        by (rule transposeLabels_step_commute) (rule ne)+
      show ?thesis unfolding e by (rule ext) (unfold o_apply, rule c)
    qed
  qed (simp add: assms)
  then show ?thesis by (simp add: transposeLabels_in_def fun_eq_iff)
qed

section \<open>Facts about log flattening\<close>

lemma addLogs_from_other:
  "(\<And>j. j < length logs \<Longrightarrow> k \<noteq> eventKey (i0 + j)) \<Longrightarrow>
   addLogs_from String Sprint i0 target logs k = target k"
proof (induction logs arbitrary: i0 target)
  case Nil
  then show ?case by simp
next
  case (Cons l ls)
  have "k \<noteq> eventKey (Suc i0 + j)" if "j < length ls" for j
    using Cons.prems [of "Suc j"] that by simp
  then have "addLogs_from String Sprint (Suc i0) (target(eventKey i0 \<mapsto> eventValue String Sprint l)) ls k
      = (target(eventKey i0 \<mapsto> eventValue String Sprint l)) k"
    by (rule Cons.IH)
  moreover have "k \<noteq> eventKey i0" using Cons.prems [of 0] by simp
  ultimately show ?case by simp
qed

lemma addLogs_from_event:
  "i < length logs \<Longrightarrow>
   addLogs_from String Sprint i0 target logs (eventKey (i0 + i)) = Some (eventValue String Sprint (logs ! i))"
proof (induction logs arbitrary: i0 target i)
  case Nil
  then show ?case by simp
next
  case (Cons l ls)
  show ?case
  proof (cases i)
    case 0
    have "eventKey i0 \<noteq> eventKey (Suc i0 + j)" for j
      using eventKey_inj [of i0 "Suc i0 + j"] by auto
    then have "addLogs_from String Sprint (Suc i0) (target(eventKey i0 \<mapsto> eventValue String Sprint l)) ls (eventKey i0)
      = (target(eventKey i0 \<mapsto> eventValue String Sprint l)) (eventKey i0)"
      by (intro addLogs_from_other)
    with 0 show ?thesis by simp
  next
    case (Suc i')
    with Cons.prems have "i' < length ls" by simp
    from Cons.IH [OF this, of "Suc i0"] Suc show ?thesis by simp
  qed
qed

lemma addLogs_event:
  "i < length logs \<Longrightarrow>
   addLogs String Sprint target logs (eventKey i) = Some (eventValue String Sprint (logs ! i))"
  using addLogs_from_event [of i logs String Sprint 0 target] by (simp add: addLogs_def)

lemma writeFields_all_spaced:
  "j + length fs \<le> n \<Longrightarrow>
   writeFields Sprint n j fs buf =
     buf @ concat (map (\<lambda>f. fst f @ ''='' @ Sprint (snd f) @ '' '') fs)"
  by (induction fs arbitrary: j buf) (simp_all add: Let_def)

lemma eventValue_all_spaced:
  "eventValue String Sprint l =
     String (Timestamp l) @ concat (map (\<lambda>f. fst f @ ''='' @ Sprint (snd f) @ '' '') (Fields l))"
  by (simp add: eventValue_def writeFields_all_spaced)

section \<open>Facts about recording\<close>

lemma RecordSpan_sampled:
  assumes "Sampled (Context sp)"
    and "bundler_Add e (bundler r) (buffered w) (buildTrace e r sp) 2 = (err, b)"
  shows "RecordSpan e r sp w =
    (let trace = buildTrace e r sp;
         w1 = w\<lparr>add_calls := add_calls w @ [(trace, 2)], buffered := b\<rparr>
     in if err = Some ErrOverflow then
          (let w2 = Errorf (log r) ''trace upload bundle too full. uploading immediately'' [] w1 in
           case upload e r [trace] w2 of
             (Some err2, w3) \<Rightarrow> Errorf (log r) ''error uploading trace: %s'' [ArgError err2] w3
           | (None, w3) \<Rightarrow> w3)
        else w1)"
  using assms by (simp add: RecordSpan_def Let_def)

lemma RecordSpan_add_calls:
  assumes "Sampled (Context sp)"
  shows "add_calls (RecordSpan e r sp w) = add_calls w @ [(buildTrace e r sp, 2)]"
proof -
  obtain err b where "bundler_Add e (bundler r) (buffered w) (buildTrace e r sp) 2 = (err, b)"
    by (cases "bundler_Add e (bundler r) (buffered w) (buildTrace e r sp) 2")
  from RecordSpan_sampled [OF assms this] show ?thesis
    by (simp add: upload_def Errorf_def Let_def split: option.splits)
qed

lemma Sprintf_016x_example: "Sprintf_016x 0x1f = ''000000000000001f''"
  by code_simp

lemma eventKey_0: "eventKey 0 = ''event_0''"
  by (simp add: eventKey_def Itoa_def digits10.simps digit_def)

lemma example_log_value: "eventValue (\<lambda>t. t) (\<lambda>v. v) example_log = ''Ta=1 b=2 ''"
  by (simp add: eventValue_def example_log_def)

lemma distinct_example_tags: "distinct (map fst example_tags)"
  by (simp add: example_tags_def)

lemma convertTags_example:
  "convertTags example_tags =
    [''peer.hostname'' \<mapsto> ''a'', ''custom'' \<mapsto> ''b'', ''event_0'' \<mapsto> ''from a tag'', ''n'' \<mapsto> ''42'']"
  by (simp add: convertTags_def example_tags_def Itoa_def digits10.simps digit_def)

section \<open>The claims\<close>

text \<open>
  C1. When \<^verbatim>\<open>Add\<close> of the bundler answers a sampled span's record with the overflow
  error, \<open>RecordSpan\<close> makes exactly one more call to the collector, with a batch of
  exactly that record; it logs the overflow, and when that upload fails it logs the
  failure too. The call returns the next world in every case: nothing is raised to the
  caller.
\<close>

theorem RecordSpan_overflow_fallback:
  assumes "Sampled (Context sp)"
    and "fst (bundler_Add e (bundler r) (buffered w) (buildTrace e r sp) 2) = Some ErrOverflow"
  shows "patch_calls (RecordSpan e r sp w) = patch_calls w @ [(project r, [buildTrace e r sp])]
    \<and> add_calls (RecordSpan e r sp w) = add_calls w @ [(buildTrace e r sp, 2)]
    \<and> errorf_calls (RecordSpan e r sp w) =
        errorf_calls w @ [(log r, ''trace upload bundle too full. uploading immediately'', [])]
          @ (case PatchTraces_Do e (project r) [buildTrace e r sp] of
               Some err \<Rightarrow> [(log r, ''error uploading trace: %s'', [ArgError err])]
             | None \<Rightarrow> [])"
proof -
  obtain b where "bundler_Add e (bundler r) (buffered w) (buildTrace e r sp) 2 = (Some ErrOverflow, b)"
    using assms(2) by (cases "bundler_Add e (bundler r) (buffered w) (buildTrace e r sp) 2") simp
  from RecordSpan_sampled [OF assms(1) this] show ?thesis
    by (simp add: upload_def Errorf_def Let_def split: option.splits)
qed

theorem RecordSpan_overflow_fallback_witness:
  "Sampled (Context (example_span True))
   \<and> fst (bundler_Add (example_env limit_Add sink_down) (bundler example_recorder)
        (buffered (example_world 9999))
        (buildTrace (example_env limit_Add sink_down) example_recorder (example_span True)) 2)
      = Some ErrOverflow
   \<and> patch_calls (RecordSpan (example_env limit_Add sink_down) example_recorder
        (example_span True) (example_world 9999))
      = [(''p'', [buildTrace (example_env limit_Add sink_down) example_recorder (example_span True)])]
   \<and> errorf_calls (RecordSpan (example_env limit_Add sink_down) example_recorder
        (example_span True) (example_world 9999))
      = [(defaultLogger, ''trace upload bundle too full. uploading immediately'', []),
         (defaultLogger, ''error uploading trace: %s'', [ArgError (OtherError ''unavailable'')])]"
  using RecordSpan_overflow_fallback [of "example_span True" "example_env limit_Add sink_down"
      example_recorder "example_world 9999"]
  by (simp add: example_span_def example_env_def example_recorder_def example_world_def
      limit_Add_def sink_down_def)

text \<open>
  C2. For a span whose sampling flag is false, \<open>RecordSpan\<close> leaves the world as it
  found it, whatever the collaborators would answer: nothing is handed to the bundler,
  nothing to the collector, nothing is logged, and no error comes back.
\<close>

theorem RecordSpan_unsampled_noop:
  "\<not> Sampled (Context sp) \<Longrightarrow> RecordSpan e r sp w = w"
  by (simp add: RecordSpan_def)

theorem RecordSpan_unsampled_noop_witness:
  "\<not> Sampled (Context (example_span False))
   \<and> RecordSpan (example_env limit_Add sink_down) example_recorder (example_span False)
        (example_world 0) = example_world 0"
  using RecordSpan_unsampled_noop [of "example_span False" "example_env limit_Add sink_down"
      example_recorder "example_world 0"]
  by (simp add: example_span_def)

text \<open>
  C3. The claim asks for the fields joined by a single space with no separator after the
  last one. The separator test of \<^verbatim>\<open>addLogs\<close> compares the index with the number of
  fields plus one, which no index reaches, so a space follows every field, the last one
  too: for a log record with timestamp \<open>T\<close> and the fields \<open>a=1\<close>, \<open>b=2\<close> the label
  \<open>event_0\<close> ends in a space, where the description of the specification gives none.
\<close>

theorem addLogs_trailing_separator:
  "addLogs id id Map.empty [example_log] ''event_0'' = Some ''Ta=1 b=2 ''
   \<and> eventValue_spec id id example_log = ''Ta=1 b=2''"
  by (simp add: addLogs_def eventKey_0 eventValue_def eventValue_spec_def example_log_def)

text \<open>
  C4, as amended. \<open>NewRecorder\<close> validates the project identifier only. When the
  options leave it empty, the result is \<open>ErrInvalidProjectID\<close> and no recorder. When it
  is not empty, validation passes whatever the credentials are, and if the client is
  created the recorder is returned with that project and with the credentials copied
  unchanged into the client's configuration.
\<close>

theorem NewRecorder_validates_project_only:
  "(o_projectID (applyOptions opts) = [] \<longrightarrow>
      NewRecorder cloudtrace_New url opts = Inl ErrInvalidProjectID)
   \<and> (o_projectID (applyOptions opts) \<noteq> [] \<longrightarrow>
      Valid (applyOptions opts) = None
      \<and> ((\<forall>conf. cloudtrace_New conf = None) \<longrightarrow>
           \<not> isl (NewRecorder cloudtrace_New url opts)
           \<and> project (projr (NewRecorder cloudtrace_New url opts)) = o_projectID (applyOptions opts)
           \<and> c_Email (traceClient (projr (NewRecorder cloudtrace_New url opts)))
               = Email (o_credentials (applyOptions opts))
           \<and> c_PrivateKey (traceClient (projr (NewRecorder cloudtrace_New url opts)))
               = PrivateKey (o_credentials (applyOptions opts))
           \<and> c_PrivateKeyID (traceClient (projr (NewRecorder cloudtrace_New url opts)))
               = PrivateKeyID (o_credentials (applyOptions opts))))"
  by (simp add: NewRecorder_def Valid_def Let_def)

theorem NewRecorder_validates_project_only_witness:
  "o_projectID (applyOptions []) = []
   \<and> NewRecorder client_ok [] [] = Inl ErrInvalidProjectID
   \<and> o_projectID (applyOptions [WithProject ''p'']) \<noteq> []
   \<and> (\<forall>conf. client_ok conf = None)
   \<and> \<not> isl (NewRecorder client_ok [] [WithProject ''p''])
   \<and> project (projr (NewRecorder client_ok [] [WithProject ''p''])) = ''p''"
  using NewRecorder_validates_project_only [of "[]" client_ok "[]"]
    NewRecorder_validates_project_only [of "[WithProject ''p'']" client_ok "[]"]
  by (simp add: applyOptions_def zeroOptions_def WithProject_def client_ok_def)

text \<open>
  C4, as stated, fails: with a project identifier and no credentials at all (empty email,
  empty private key, empty key identifier), validation reports no error and
  \<open>NewRecorder\<close> returns a recorder.
\<close>

theorem NewRecorder_accepts_missing_credentials:
  "o_credentials (applyOptions [WithProject ''p''])
     = \<lparr>Email = [], PrivateKey = [], PrivateKeyID = []\<rparr>
   \<and> Valid (applyOptions [WithProject ''p'']) = None
   \<and> \<not> isl (NewRecorder client_ok [] [WithProject ''p''])"
  by (simp add: NewRecorder_def Valid_def Let_def applyOptions_def zeroOptions_def
      WithProject_def client_ok_def)

text \<open>
  C5, as amended. For a tag mapping (its entries in any visiting order, keys distinct),
  \<open>convertTags\<close> gives under each key: the string itself for a tag of type \<^verbatim>\<open>string\<close>,
  the base-10 text of \<^verbatim>\<open>strconv.Itoa\<close> for a tag of type \<^verbatim>\<open>int\<close>, and nothing for a tag
  of any other type, the other integer types among them, or for a key that is absent.
  It is a total function: no error is raised.
\<close>

theorem convertTags_result:
  "distinct (map fst tags) \<Longrightarrow>
   convertTags tags k =
     (case map_of tags k of
        Some (TInt i) \<Rightarrow> Some (Itoa i)
      | Some (TString s) \<Rightarrow> Some s
      | _ \<Rightarrow> None)"
  by (simp add: convertTags_def fold_convertTags_step)

theorem convertTags_result_witness:
  "distinct (map fst example_tags)
   \<and> convertTags example_tags ''custom'' = Some ''b''
   \<and> convertTags example_tags ''n'' = Some ''42''
   \<and> convertTags example_tags ''flag'' = None"
  using convertTags_result [of example_tags "''custom''"]
    convertTags_result [of example_tags "''n''"]
    convertTags_result [of example_tags "''flag''"]
  by (simp add: example_tags_def Itoa_def digits10.simps digit_def)

text \<open>
  C5, as stated, fails for an integer-valued tag that is not of the type \<^verbatim>\<open>int\<close>: a
  status code stored as a \<^verbatim>\<open>uint16\<close>, or an \<^verbatim>\<open>int64\<close>, is omitted, not rendered.
\<close>

theorem convertTags_drops_other_integers:
  "convertTags [(''http.status_code'', TUint16 200), (''bytes'', TInt64 5)] ''http.status_code'' = None
   \<and> convertTags [(''http.status_code'', TUint16 200), (''bytes'', TInt64 5)] ''bytes'' = None"
  by (simp add: convertTags_def)

text \<open>
  C6. Whatever the order in which the rewrite table is visited, for every entry of the
  table whose well-known key is present in the label set, the rewritten label set holds
  that value under the entry's destination key and no longer holds the well-known key.
  The witness is the example of the specification: the tags \<open>peer.hostname = a\<close> and
  \<open>custom = b\<close> (among others) give \<open>trace.cloud.google.com/http/host = a\<close>,
  \<open>custom = b\<close> and no \<open>peer.hostname\<close>.
\<close>

theorem transposeLabels_moves_entry:
  assumes perm: "mset es = mset labelMap"
    and entry: "(k, t) \<in> set labelMap"
    and present: "labels k = Some v"
  shows "transposeLabels_in es labels t = Some v \<and> transposeLabels_in es labels k = None"
proof -
  from perm have set_es: "set es = set labelMap" by (rule mset_eq_setD)
  from distinct_labelMap have dist: "distinct es"
    unfolding mset_eq_imp_distinct_iff [OF perm] .
  from entry set_es have "(k, t) \<in> set es" by simp
  then obtain as bs where es: "es = as @ (k, t) # bs" by (auto dest: split_list)
  from dist es have notin: "(k, t) \<notin> set as" "(k, t) \<notin> set bs" by auto
  have other: "fst e \<noteq> k \<and> snd e \<noteq> k \<and> fst e \<noteq> t \<and> snd e \<noteq> t"
    if "e \<in> set as \<union> set bs" for e
  proof -
    from that es set_es have mem: "e \<in> set labelMap" by auto
    moreover from that notin have "e \<noteq> (k, t)" by auto
    ultimately show ?thesis
      using labelMap_disjoint(2) [OF mem entry] labelMap_disjoint(1) [OF mem entry]
        labelMap_disjoint(1) [OF entry mem] by auto
  qed
  let ?m1 = "fold transposeLabels_step as labels"
  let ?m2 = "transposeLabels_step (k, t) ?m1"
  have "?m1 k = labels k"
    by (rule fold_transposeLabels_step_other) (simp add: other)
  with present have m1: "?m1 k = Some v" by simp
  have kt: "k \<noteq> t"
    using labelMap_disjoint(1) [OF entry entry] by simp
  from m1 kt have m2: "?m2 t = Some v" "?m2 k = None" by simp_all
  have "fold transposeLabels_step bs ?m2 t = ?m2 t"
    by (rule fold_transposeLabels_step_other) (simp add: other)
  moreover have "fold transposeLabels_step bs ?m2 k = ?m2 k"
    by (rule fold_transposeLabels_step_other) (simp add: other)
  moreover have "transposeLabels_in es labels = fold transposeLabels_step bs ?m2"
    unfolding transposeLabels_in_def es by simp
  ultimately show ?thesis using m2 by (simp del: transposeLabels_step.simps)
qed

theorem transposeLabels_moves_entry_witness:
  "mset labelMap = mset labelMap
   \<and> (''peer.hostname'', ''trace.cloud.google.com/http/host'') \<in> set labelMap
   \<and> convertTags example_tags ''peer.hostname'' = Some ''a''
   \<and> transposeLabels (convertTags example_tags) ''trace.cloud.google.com/http/host'' = Some ''a''
   \<and> transposeLabels (convertTags example_tags) ''peer.hostname'' = None
   \<and> transposeLabels (convertTags example_tags) ''custom'' = Some ''b''"
proof -
  have custom: "transposeLabels (convertTags example_tags) ''custom'' = Some ''b''"
    by (simp add: convertTags_example transposeLabels_def transposeLabels_in_def labelMap_def
        PeerHostname_def HTTPMethod_def HTTPStatusCode_def HTTPUrl_def)
  have entry: "(''peer.hostname'', ''trace.cloud.google.com/http/host'') \<in> set labelMap"
    by (simp add: labelMap_def PeerHostname_def)
  have present: "convertTags example_tags ''peer.hostname'' = Some ''a''"
    by (simp add: convertTags_example)
  from transposeLabels_moves_entry [of labelMap "''peer.hostname''"
      "''trace.cloud.google.com/http/host''" "convertTags example_tags" "''a''",
      OF refl entry present] custom entry present
  show ?thesis by (simp add: transposeLabels_def)
qed

text \<open>
  C7. The rewritten label set does not depend on the order in which the entries of the
  rewrite table are visited: any two orderings of the table's entries give the same
  label set, for every input label set.
\<close>

theorem transposeLabels_order_independent:
  assumes "mset es = mset labelMap" and "mset es' = mset labelMap"
  shows "transposeLabels_in es labels = transposeLabels_in es' labels"
proof -
  have "transposeLabels_in es = transposeLabels_in labelMap"
    using assms(1) by (rule transposeLabels_in_perm)
  moreover have "transposeLabels_in es' = transposeLabels_in labelMap"
    using assms(2) by (rule transposeLabels_in_perm)
  ultimately show ?thesis by simp
qed

theorem transposeLabels_order_independent_witness:
  "mset (rev labelMap) = mset labelMap \<and> mset labelMap = mset labelMap
   \<and> transposeLabels_in (rev labelMap) (convertTags example_tags)
      = transposeLabels_in labelMap (convertTags example_tags)"
  using transposeLabels_order_independent [of "rev labelMap" labelMap "convertTags example_tags"]
  by simp

text \<open>
  C8. For a sampled span, the record handed to the bundler has as its trace id the
  span's 64-bit trace identifier rendered by \<^verbatim>\<open>%016x\<close>, twice. One rendering has exactly
  16 characters and reads back, in base 16, as the identifier; the trace id has 32
  characters, all of them lowercase hexadecimal digits.
\<close>

theorem RecordSpan_trace_id:
  assumes "Sampled (Context sp)"
  shows "add_calls (RecordSpan e r sp w) = add_calls w @ [(buildTrace e r sp, 2)]
   \<and> TraceId (buildTrace e r sp)
       = Sprintf_016x (TraceID (Context sp)) @ Sprintf_016x (TraceID (Context sp))
   \<and> length (Sprintf_016x (TraceID (Context sp))) = 16
   \<and> number_of 16 (Sprintf_016x (TraceID (Context sp))) = unat (TraceID (Context sp))
   \<and> length (TraceId (buildTrace e r sp)) = 32
   \<and> list_all is_lower_hex (TraceId (buildTrace e r sp))"
  using assms
  by (simp add: RecordSpan_add_calls buildTrace_def Let_def length_Sprintf_016x
      number_of_Sprintf_016x Sprintf_016x_hex)

theorem RecordSpan_trace_id_witness:
  "Sampled (Context (example_span True))
   \<and> TraceId (buildTrace (example_env limit_Add sink_up) example_recorder (example_span True))
       = ''000000000000001f000000000000001f''"
  using RecordSpan_trace_id [of "example_span True" "example_env limit_Add sink_up"
      example_recorder "example_world 0"]
  by (simp add: example_span_def Sprintf_016x_example)

text \<open>
  C9. When \<^verbatim>\<open>Add\<close> of the bundler answers a sampled span's record with an error other
  than the overflow error, \<open>RecordSpan\<close> logs nothing and makes no call to the
  collector: the world changes only by the attempt itself, and nothing tells the caller.
\<close>

theorem RecordSpan_other_error_dropped:
  assumes "Sampled (Context sp)"
    and "fst (bundler_Add e (bundler r) (buffered w) (buildTrace e r sp) 2) = Some err"
    and "err \<noteq> ErrOverflow"
  shows "errorf_calls (RecordSpan e r sp w) = errorf_calls w
    \<and> patch_calls (RecordSpan e r sp w) = patch_calls w
    \<and> RecordSpan e r sp w =
        w\<lparr>add_calls := add_calls w @ [(buildTrace e r sp, 2)],
          buffered := snd (bundler_Add e (bundler r) (buffered w) (buildTrace e r sp) 2)\<rparr>"
proof -
  obtain b where "bundler_Add e (bundler r) (buffered w) (buildTrace e r sp) 2 = (Some err, b)"
    using assms(2) by (cases "bundler_Add e (bundler r) (buffered w) (buildTrace e r sp) 2") simp
  from RecordSpan_sampled [OF assms(1) this] assms(3) this show ?thesis
    by (simp add: Let_def)
qed

theorem RecordSpan_other_error_dropped_witness:
  "Sampled (Context (example_span True))
   \<and> fst (bundler_Add (example_env oversize_Add sink_up) (bundler example_recorder)
        (buffered (example_world 0))
        (buildTrace (example_env oversize_Add sink_up) example_recorder (example_span True)) 2)
      = Some (OtherError ''item size exceeds bundle byte limit'')
   \<and> OtherError ''item size exceeds bundle byte limit'' \<noteq> ErrOverflow
   \<and> errorf_calls (RecordSpan (example_env oversize_Add sink_up) example_recorder
        (example_span True) (example_world 0)) = []
   \<and> patch_calls (RecordSpan (example_env oversize_Add sink_up) example_recorder
        (example_span True) (example_world 0)) = []"
  using RecordSpan_other_error_dropped [of "example_span True" "example_env oversize_Add sink_up"
      example_recorder "example_world 0" "OtherError ''item size exceeds bundle byte limit''"]
  by (simp add: example_span_def example_env_def example_world_def oversize_Add_def)

text \<open>
  C10. For every index \<open>i\<close> of a log event of the span, the label \<open>event_<i>\<close> of the
  span's label set is the flattened log event at that index, whatever the labels
  obtained from the tags held under that key: the log events are written last, onto the
  same mapping. In the witness a tag named \<open>event_0\<close> is replaced by the first log event.
\<close>

theorem spanLabels_log_overrides_tag:
  "i < length (Logs sp) \<Longrightarrow>
   spanLabels e sp (eventKey i)
     = Some (eventValue (time_String e) (fmt_Sprint e) (Logs sp ! i))
   \<and> map Labels (Spans (buildTrace e r sp)) = [spanLabels e sp]"
  by (simp add: spanLabels_def buildTrace_def Let_def addLogs_event)

theorem spanLabels_log_overrides_tag_witness:
  "0 < length (Logs (example_span True))
   \<and> transposeLabels (convertTags (Tags (example_span True))) ''event_0'' = Some ''from a tag''
   \<and> spanLabels (example_env limit_Add sink_up) (example_span True) ''event_0''
       = Some ''Ta=1 b=2 ''"
proof -
  have tag: "transposeLabels (convertTags example_tags) ''event_0'' = Some ''from a tag''"
    by (simp add: convertTags_example transposeLabels_def transposeLabels_in_def labelMap_def
        PeerHostname_def HTTPMethod_def HTTPStatusCode_def HTTPUrl_def)
  have len: "0 < length (Logs (example_span True))"
    by (simp add: example_span_def)
  from spanLabels_log_overrides_tag [OF len, of "example_env limit_Add sink_up" example_recorder]
    tag len
  show ?thesis
    by (simp add: eventKey_0 example_span_def example_env_def example_log_value)
qed

end
